theory Spec2Isabelle
  imports Complex_Main
begin

section \<open>Data model\<close>

text \<open>
  The two notebooks are linear Python scripts over an external quantum SDK. The SDK is
  not part of the repository, so it enters the model in two ways only:
  \<^item> a circuit is the list of instructions the notebook appends to it, in order;
  \<^item> the simulator is a parameter \<open>backend\<close>: given what has happened so far, a circuit
    and a shot count, it returns the measurement counts (a Python dict, kept as an
    association list in insertion order, because \<open>max\<close> over a dict depends on it).
  Everything the notebooks do to the SDK is recorded in a trace of events, so that
  "no circuit is built or executed" is a statement about the trace. An exception leaves
  the trace as it was when it was raised, and is the \<open>Inl\<close> of the result.
  \<open>ValueError\<close> carries its message; \<open>InvalidLiteral s\<close> is the \<open>ValueError\<close> of \<open>int(s)\<close>, whose
  message is \<open>invalid literal for int() with base 10:\<close> followed by \<open>repr(s)\<close>.

  Python floats are modelled by the reals. In the phase loop every value is a dyadic
  rational with at most \<open>num_bits\<close> binary digits, so binary64 arithmetic is exact there
  for every \<open>num_bits\<close> up to 53 (the notebook uses 10); a longer run would first have to
  build a circuit of more than \<open>2 ^ 53\<close> instructions.
\<close>

datatype error =
    ValueError string
  | IndexError
  | InvalidLiteral string

datatype qubit = Qreg | Areg

datatype gate =
    Rx real qubit
  | Ry real qubit
  | U1g real qubit
  | U2g real real qubit
  | Xg qubit
  | Hg qubit
  | Control_H
  | Measure qubit

type_synonym circuit = "gate list"

type_synonym counts = "(string \<times> int) list"

datatype event = New_circuit | Execute circuit nat

type_synonym trace = "event list"

type_synonym backend = "trace \<Rightarrow> circuit \<Rightarrow> nat \<Rightarrow> counts"

section \<open>Variational quantum eigensolver\<close>

text \<open>\<open>quantum_state_preparation\<close>: \<open>circuit.rx(parameters[0], q[0])\<close>, then
  \<open>circuit.ry(parameters[1], q[0])\<close>. Indexing a sequence that is too short raises
  \<open>IndexError\<close>.\<close>

fun quantum_state_preparation :: "circuit \<Rightarrow> real list \<Rightarrow> error + circuit" where
  "quantum_state_preparation circuit (p0 # p1 # ps) = Inr (circuit @ [Rx p0 Qreg, Ry p1 Qreg])"
| "quantum_state_preparation circuit ps = Inl IndexError"

definition vqe_circuit_message :: string where
  \<open>vqe_circuit_message =
     ''Not valid input for measurement: input should be "X" or "Y" or "Z"''\<close>

definition vqe_circuit :: "real list \<Rightarrow> string \<Rightarrow> trace \<Rightarrow> (error + circuit) \<times> trace" where
  "vqe_circuit parameters measure_type w =
     (let w1 = w @ [New_circuit] in
      case quantum_state_preparation [] parameters of
        Inl e \<Rightarrow> (Inl e, w1)
      | Inr circuit \<Rightarrow>
          if measure_type = ''Z'' then (Inr (circuit @ [Measure Qreg]), w1)
          else if measure_type = ''X'' then (Inr (circuit @ [U2g 0 pi Qreg, Measure Qreg]), w1)
          else if measure_type = ''Y'' then (Inr (circuit @ [U2g 0 (pi / 2) Qreg, Measure Qreg]), w1)
          else (Inl (ValueError vqe_circuit_message), w1))"

text \<open>\<open>get_or_else_zero\<close>: \<open>value = 0; if key in d: value = d[key]; return value\<close>.\<close>

definition get_or_else_zero :: "('k \<rightharpoonup> 'v::zero) \<Rightarrow> 'k \<Rightarrow> 'v" where
  "get_or_else_zero d key = (case d key of None \<Rightarrow> 0 | Some v \<Rightarrow> v)"

definition quantum_module_message :: string where
  \<open>quantum_module_message =
     ''Not valid input for measurement: input should be "I" or "X" or "Z" or "Y"''\<close>

text \<open>\<open>quantum_module\<close>: the branch on \<open>measure_type\<close> comes first; only the three
  branches that built a circuit reach the simulator.\<close>

definition quantum_module :: "backend \<Rightarrow> real list \<Rightarrow> string \<Rightarrow> trace \<Rightarrow> (error + real) \<times> trace" where
  "quantum_module backend parameters measure_type w =
     (if measure_type = ''I'' then (Inr 1, w)
      else
        case (if measure_type = ''Z'' then Some (vqe_circuit parameters ''Z'' w)
              else if measure_type = ''X'' then Some (vqe_circuit parameters ''X'' w)
              else if measure_type = ''Y'' then Some (vqe_circuit parameters ''Y'' w)
              else None) of
          None \<Rightarrow> (Inl (ValueError quantum_module_message), w)
        | Some (Inl e, w1) \<Rightarrow> (Inl e, w1)
        | Some (Inr circuit, w1) \<Rightarrow>
            (let shots = 1000;
                 counts = backend w1 circuit shots;
                 w2 = w1 @ [Execute circuit shots];
                 expectation_value =
                   real_of_int (get_or_else_zero (map_of counts) ''0''
                                - get_or_else_zero (map_of counts) ''1'') / real shots
             in (Inr expectation_value, w2)))"

text \<open>\<open>vqe\<close>: four products, each \<open>get_or_else_zero(pauli_dict, l) * quantum_module(parameters, l)\<close>,
  evaluated in the order I, Z, X, Y, then summed. \<open>pauli_dict\<close> is the notebook's global
  dictionary from label to coefficient.\<close>

definition vqe :: "backend \<Rightarrow> (string \<rightharpoonup> real) \<Rightarrow> real list \<Rightarrow> trace \<Rightarrow> (error + real) \<times> trace" where
  "vqe backend pauli_dict parameters w =
     (case quantum_module backend parameters ''I'' w of
        (Inl e, w1) \<Rightarrow> (Inl e, w1)
      | (Inr mI, w1) \<Rightarrow>
     (case quantum_module backend parameters ''Z'' w1 of
        (Inl e, w2) \<Rightarrow> (Inl e, w2)
      | (Inr mZ, w2) \<Rightarrow>
     (case quantum_module backend parameters ''X'' w2 of
        (Inl e, w3) \<Rightarrow> (Inl e, w3)
      | (Inr mX, w3) \<Rightarrow>
     (case quantum_module backend parameters ''Y'' w3 of
        (Inl e, w4) \<Rightarrow> (Inl e, w4)
      | (Inr mY, w4) \<Rightarrow>
          (let quantum_module_I = get_or_else_zero pauli_dict ''I'' * mI;
               quantum_module_Z = get_or_else_zero pauli_dict ''Z'' * mZ;
               quantum_module_X = get_or_else_zero pauli_dict ''X'' * mX;
               quantum_module_Y = get_or_else_zero pauli_dict ''Y'' * mY;
               classical_adder = quantum_module_I + quantum_module_Z + quantum_module_X + quantum_module_Y
           in (Inr classical_adder, w4))))))"

section \<open>Iterative phase estimation\<close>

text \<open>\<open>max(counts, key=counts.get)\<close>: the first key, in the dictionary's order, whose
  count no later key exceeds; \<open>max\<close> of an empty dictionary raises \<open>ValueError\<close>. The keys
  of a dictionary are distinct, so \<open>counts.get\<close> of a key is the count stored beside it.\<close>

fun max_from :: "string \<Rightarrow> int \<Rightarrow> counts \<Rightarrow> string" where
  "max_from best best_count [] = best"
| "max_from best best_count ((key, n) # rest) =
     (if best_count < n then max_from key n rest else max_from best best_count rest)"

fun max_by_count :: "counts \<Rightarrow> error + string" where
  "max_by_count [] = Inl (ValueError ''max() arg is an empty sequence'')"
| "max_by_count ((key, n) # rest) = Inr (max_from key n rest)"

text \<open>\<open>int(key)\<close> on a string of ASCII characters, in base ten: whitespace around the
  literal is skipped, one sign may come first, then at least one digit; a single underscore
  may stand between two digits. Anything else raises the \<open>ValueError\<close> that names the
  literal.\<close>

definition is_space :: "char \<Rightarrow> bool" where
  "is_space c \<longleftrightarrow> (of_char c :: nat) \<in> {9, 10, 11, 12, 13, 28, 29, 30, 31, 32}"

definition is_digit :: "char \<Rightarrow> bool" where
  "is_digit c \<longleftrightarrow> 48 \<le> (of_char c :: nat) \<and> (of_char c :: nat) \<le> 57"

definition digit_value :: "char \<Rightarrow> int" where
  "digit_value c = int (of_char c) - 48"

definition strip :: "string \<Rightarrow> string" where
  "strip s = rev (dropWhile is_space (rev (dropWhile is_space s)))"

text \<open>The digits after the first one, with the value read so far.\<close>

fun more_digits :: "int \<Rightarrow> string \<Rightarrow> int option" where
  "more_digits acc [] = Some acc"
| "more_digits acc [c] = (if is_digit c then Some (10 * acc + digit_value c) else None)"
| "more_digits acc (c # d # ds) =
     (if is_digit c then more_digits (10 * acc + digit_value c) (d # ds)
      else if c = CHR ''_'' \<and> is_digit d then more_digits (10 * acc + digit_value d) ds
      else None)"

definition unsigned_literal :: "string \<Rightarrow> int option" where
  "unsigned_literal s =
     (case s of
        [] \<Rightarrow> None
      | c # cs \<Rightarrow> if is_digit c then more_digits (digit_value c) cs else None)"

definition int_of_string :: "string \<Rightarrow> error + int" where
  "int_of_string s =
     (let body = strip s;
          parsed = (case body of
                      [] \<Rightarrow> None
                    | c # cs \<Rightarrow>
                        if c = CHR ''-'' then map_option uminus (unsigned_literal cs)
                        else if c = CHR ''+'' then unsigned_literal cs
                        else unsigned_literal body)
      in case parsed of None \<Rightarrow> Inl (InvalidLiteral s) | Some v \<Rightarrow> Inr v)"

text \<open>\<open>value = int(max(counts, key=counts.get))\<close>.\<close>

definition measured_value :: "counts \<Rightarrow> error + int" where
  "measured_value counts =
     (case max_by_count counts of Inl e \<Rightarrow> Inl e | Inr key \<Rightarrow> int_of_string key)"

text \<open>\<open>for order in range(2 ** k_precision): k_circ += control_H\<close>. The controlled
  evolution circuit \<open>control_H\<close> comes from the SDK; one append of it is the single
  instruction \<open>Control_H\<close>.\<close>

primrec append_control_H :: "nat \<Rightarrow> circuit \<Rightarrow> circuit" where
  "append_control_H 0 k_circ = k_circ"
| "append_control_H (Suc order) k_circ = append_control_H order (k_circ @ [Control_H])"

text \<open>The body of the \<open>for k_precision in reversed(range(num_bits_estimate))\<close> loop.
  Steps (1) to (5) build the circuit \<open>k_circ\<close> from the bit index and the accumulator.\<close>

definition k_circ :: "nat \<Rightarrow> real \<Rightarrow> circuit" where
  "k_circ k_precision phase =
     (let circ = [Xg Qreg];
          circ = circ @ [Hg Areg];
          circ = append_control_H (2 ^ k_precision) circ;
          phase_shift = 2 * pi * phase * 2 ^ k_precision;
          circ = circ @ [U1g (- phase_shift) Areg];
          circ = circ @ [Hg Areg];
          circ = circ @ [Measure Areg]
      in circ)"

text \<open>Steps (6) and (7) execute it with 1000 shots and add the measured value, scaled, to
  the accumulator.\<close>

definition ipea_iteration :: "backend \<Rightarrow> nat \<Rightarrow> real \<Rightarrow> trace \<Rightarrow> (error + real) \<times> trace" where
  "ipea_iteration backend k_precision phase w =
     (let w1 = w @ [New_circuit];
          circ = k_circ k_precision phase;
          counts = backend w1 circ 1000;
          w2 = w1 @ [Execute circ 1000]
      in case measured_value counts of
           Inl e \<Rightarrow> (Inl e, w2)
         | Inr v \<Rightarrow> (Inr (phase + real_of_int v / 2 ^ (k_precision + 1)), w2))"

fun ipea_loop :: "backend \<Rightarrow> nat list \<Rightarrow> real \<Rightarrow> trace \<Rightarrow> (error + real) \<times> trace" where
  "ipea_loop backend [] phase w = (Inr phase, w)"
| "ipea_loop backend (k_precision # ks) phase w =
     (case ipea_iteration backend k_precision phase w of
        (Inl e, w') \<Rightarrow> (Inl e, w')
      | (Inr phase', w') \<Rightarrow> ipea_loop backend ks phase' w')"

definition num_bits_estimate :: nat where
  "num_bits_estimate = 10"

text \<open>\<open>phase = 0\<close>, then the loop over \<open>reversed(range(num_bits))\<close>.\<close>

definition estimate_phase :: "backend \<Rightarrow> nat \<Rightarrow> trace \<Rightarrow> (error + real) \<times> trace" where
  "estimate_phase backend num_bits w = ipea_loop backend (rev [0..<num_bits]) 0 w"

definition t :: real where
  "t = 1"

definition eigenvalue :: "real \<Rightarrow> real" where
  "eigenvalue phase = 2 * pi * (1 - phase) / t"

text \<open>The loop cell followed by the cell that computes \<open>eigenvalue\<close>.\<close>

definition estimate_eigenvalue :: "backend \<Rightarrow> nat \<Rightarrow> trace \<Rightarrow> (error + real) \<times> trace" where
  "estimate_eigenvalue backend num_bits w =
     (case estimate_phase backend num_bits w of
        (Inl e, w') \<Rightarrow> (Inl e, w')
      | (Inr phase, w') \<Rightarrow> (Inr (eigenvalue phase), w'))"

section \<open>Vocabulary of the properties\<close>

text \<open>The counts of a one-bit classical register: at least one outcome, every key
  \<open>0\<close> or \<open>1\<close>. A simulator that only returns such counts.\<close>

definition one_bit_counts :: "counts \<Rightarrow> bool" where
  "one_bit_counts cs \<longleftrightarrow> cs \<noteq> [] \<and> list_all (\<lambda>(key, n). key = ''0'' \<or> key = ''1'') cs"

definition one_bit_backend :: "backend \<Rightarrow> bool" where
  "one_bit_backend backend \<longleftrightarrow> (\<forall>w circuit shots. one_bit_counts (backend w circuit shots))"

text \<open>The accumulator after the first \<open>i\<close> iterations of a run with \<open>num_bits\<close> bits.\<close>

definition phase_after :: "backend \<Rightarrow> nat \<Rightarrow> nat \<Rightarrow> trace \<Rightarrow> error + real" where
  "phase_after backend num_bits i w = fst (ipea_loop backend (take i (rev [0..<num_bits])) 0 w)"

text \<open>The circuits a trace executed, in order, and the number of controlled-unitary
  applications in a circuit.\<close>

fun executed :: "trace \<Rightarrow> circuit list" where
  "executed [] = []"
| "executed (New_circuit # es) = executed es"
| "executed (Execute circuit shots # es) = circuit # executed es"

definition applications :: "circuit \<Rightarrow> nat" where
  "applications circuit = count_list circuit Control_H"

text \<open>Counts whose values are non-negative and sum to the shot count.\<close>

definition shot_counts :: "nat \<Rightarrow> counts \<Rightarrow> bool" where
  "shot_counts shots cs \<longleftrightarrow> list_all (\<lambda>(key, n). 0 \<le> n) cs \<and> sum_list (map snd cs) = int shots"

text \<open>A message mentions a text when the text occurs in it as a contiguous substring.\<close>

fun occurs_in :: "string \<Rightarrow> string \<Rightarrow> bool" where
  "occurs_in s [] = (s = [])"
| "occurs_in s (c # cs) = (take (length s) (c # cs) = s \<or> occurs_in s cs)"

text \<open>A simulator that answers every job with the same counts.\<close>

definition constant_backend :: "counts \<Rightarrow> backend" where
  "constant_backend cs = (\<lambda>w circuit shots. cs)"

text \<open>A simulator that answers the first job with the first entry of a script, the second
  job with the second entry, and so on; once the script is used up, every outcome is \<open>0\<close>.\<close>

definition scripted_backend :: "counts list \<Rightarrow> backend" where
  "scripted_backend answers =
     (\<lambda>w circuit shots.
        if length (executed w) < length answers then answers ! length (executed w)
        else [(''0'', int shots)])"

section \<open>Auxiliary facts\<close>

lemma max_from_mem: "max_from best bc rest \<in> insert best (fst ` set rest)"
  by (induction best bc rest rule: max_from.induct) auto

lemma int_of_string_bits: "int_of_string ''0'' = Inr 0" "int_of_string ''1'' = Inr 1"
  by (simp_all add: int_of_string_def strip_def is_space_def unsigned_literal_def is_digit_def
        digit_value_def)

lemma measured_value_bit:
  assumes "one_bit_counts cs"
  shows "measured_value cs = Inr 0 \<or> measured_value cs = Inr 1"
proof -
  from assms obtain key n rest where cs: "cs = (key, n) # rest"
    by (cases cs) (auto simp: one_bit_counts_def)
  have "max_from key n rest \<in> insert key (fst ` set rest)"
    by (rule max_from_mem)
  moreover have "\<forall>k \<in> insert key (fst ` set rest). k = ''0'' \<or> k = ''1''"
    using assms by (auto simp: one_bit_counts_def cs list_all_iff)
  ultimately have "max_from key n rest = ''0'' \<or> max_from key n rest = ''1''"
    by blast
  then show ?thesis
    by (auto simp: measured_value_def cs int_of_string_bits)
qed

lemma append_control_H_replicate:
  "append_control_H n circ = circ @ replicate n Control_H"
  by (induction n arbitrary: circ) (simp_all add: replicate_append_same)

lemma k_circ_shape:
  "k_circ k phase = [Xg Qreg, Hg Areg] @ replicate (2 ^ k) Control_H
                     @ [U1g (- (2 * pi * phase * 2 ^ k)) Areg, Hg Areg, Measure Areg]"
  by (simp add: k_circ_def Let_def append_control_H_replicate)

lemma count_list_replicate_same: "count_list (replicate n x) x = n"
  by (induction n) simp_all

lemma applications_k_circ: "applications (k_circ k phase) = 2 ^ k"
  by (simp add: applications_def k_circ_shape count_list_replicate_same)

lemma ipea_iteration_bit:
  assumes "one_bit_backend backend"
  shows "\<exists>b. (b = 0 \<or> b = 1)
           \<and> measured_value (backend (w @ [New_circuit]) (k_circ k phase) 1000) = Inr b
           \<and> ipea_iteration backend k phase w
               = (Inr (phase + real_of_int b / 2 ^ (k + 1)),
                  w @ [New_circuit, Execute (k_circ k phase) 1000])"
proof -
  have "one_bit_counts (backend (w @ [New_circuit]) (k_circ k phase) 1000)"
    using assms by (simp add: one_bit_backend_def)
  then have "measured_value (backend (w @ [New_circuit]) (k_circ k phase) 1000) = Inr 0
           \<or> measured_value (backend (w @ [New_circuit]) (k_circ k phase) 1000) = Inr 1"
    by (rule measured_value_bit)
  then show ?thesis
    by (auto simp: ipea_iteration_def Let_def)
qed

lemma ipea_loop_append:
  "ipea_loop backend (xs @ ys) phase w =
     (case ipea_loop backend xs phase w of
        (Inl e, w') \<Rightarrow> (Inl e, w')
      | (Inr phase', w') \<Rightarrow> ipea_loop backend ys phase' w')"
  by (induction xs arbitrary: phase w) (auto split: prod.splits sum.splits)

lemma executed_append: "executed (u @ v) = executed u @ executed v"
  by (induction u rule: executed.induct) simp_all

lemma ipea_loop_total:
  assumes "one_bit_backend backend"
  shows "\<exists>phase' tr. ipea_loop backend ks phase w = (Inr phase', w @ tr)
           \<and> phase \<le> phase'
           \<and> length tr = 2 * length ks
           \<and> map applications (executed tr) = map (\<lambda>k. 2 ^ k) ks"
proof (induction ks arbitrary: phase w)
  case Nil
  show ?case by simp
next
  case (Cons k ks)
  from ipea_iteration_bit[OF assms, of w k phase] obtain b where
    b: "b = 0 \<or> b = 1" and
    it: "ipea_iteration backend k phase w
           = (Inr (phase + real_of_int b / 2 ^ (k + 1)), w @ [New_circuit, Execute (k_circ k phase) 1000])"
    by blast
  from Cons.IH[of "phase + real_of_int b / 2 ^ (k + 1)" "w @ [New_circuit, Execute (k_circ k phase) 1000]"]
  obtain phase' tr where
    lp: "ipea_loop backend ks (phase + real_of_int b / 2 ^ (k + 1)) (w @ [New_circuit, Execute (k_circ k phase) 1000])
           = (Inr phase', (w @ [New_circuit, Execute (k_circ k phase) 1000]) @ tr)"
    and le: "phase + real_of_int b / 2 ^ (k + 1) \<le> phase'"
    and len: "length tr = 2 * length ks"
    and apps: "map applications (executed tr) = map (\<lambda>k. 2 ^ k) ks"
    by blast
  have "0 \<le> real_of_int b / 2 ^ (k + 1)" using b by auto
  with le have "phase \<le> phase'" by linarith
  moreover have "ipea_loop backend (k # ks) phase w
      = (Inr phase', w @ ([New_circuit, Execute (k_circ k phase) 1000] @ tr))"
    using it lp by simp
  moreover have "length ([New_circuit, Execute (k_circ k phase) 1000] @ tr) = 2 * length (k # ks)"
    using len by simp
  moreover have "map applications (executed ([New_circuit, Execute (k_circ k phase) 1000] @ tr))
      = map (\<lambda>k. 2 ^ k) (k # ks)"
    using apps by (simp add: applications_k_circ)
  ultimately show ?case by blast
qed

lemma ipea_loop_dyadic:
  assumes "one_bit_backend backend"
  shows "\<exists>m::nat. m < 2 ^ d
           \<and> fst (ipea_loop backend (rev [j..<j + d]) phase w) = Inr (phase + real m / 2 ^ (j + d))"
proof (induction d arbitrary: phase w)
  case 0
  show ?case by simp
next
  case (Suc d)
  from ipea_iteration_bit[OF assms, of w "j + d" phase] obtain b where
    b: "b = 0 \<or> b = 1" and
    it: "ipea_iteration backend (j + d) phase w
           = (Inr (phase + real_of_int b / 2 ^ (j + d + 1)), w @ [New_circuit, Execute (k_circ (j + d) phase) 1000])"
    by blast
  from Suc.IH[of "phase + real_of_int b / 2 ^ (j + d + 1)" "w @ [New_circuit, Execute (k_circ (j + d) phase) 1000]"]
  obtain m :: nat where m: "m < 2 ^ d" and
    lp: "fst (ipea_loop backend (rev [j..<j + d]) (phase + real_of_int b / 2 ^ (j + d + 1))
              (w @ [New_circuit, Execute (k_circ (j + d) phase) 1000]))
          = Inr (phase + real_of_int b / 2 ^ (j + d + 1) + real m / 2 ^ (j + d))"
    by blast
  have loop: "fst (ipea_loop backend (rev [j..<j + Suc d]) phase w)
          = Inr (phase + real_of_int b / 2 ^ (j + d + 1) + real m / 2 ^ (j + d))"
    using it lp by simp
  have bound: "nat b + 2 * m < 2 ^ Suc d" using b m by auto
  have "real_of_int b / 2 ^ (j + d + 1) + real m / 2 ^ (j + d) = real (nat b + 2 * m) / 2 ^ (j + Suc d)"
    using b by (auto simp: field_simps)
  with loop have "fst (ipea_loop backend (rev [j..<j + Suc d]) phase w)
          = Inr (phase + real (nat b + 2 * m) / 2 ^ (j + Suc d))"
    by (simp add: add.assoc)
  with bound show ?case by blast
qed

lemma take_rev_upt: "i \<le> n \<Longrightarrow> take i (rev [0..<n]) = rev [n - i..<n - i + i]"
  by (simp add: take_rev drop_upt)

lemma phase_after_dyadic:
  assumes "one_bit_backend backend" and "i \<le> n"
  shows "\<exists>m::nat. m < 2 ^ i \<and> phase_after backend n i w = Inr (real m / 2 ^ n)"
proof -
  from ipea_loop_dyadic[OF assms(1), of i "n - i" 0 w] obtain m :: nat where
    "m < 2 ^ i" "fst (ipea_loop backend (rev [n - i..<n - i + i]) 0 w) = Inr (0 + real m / 2 ^ (n - i + i))"
    by blast
  then show ?thesis using assms(2) by (auto simp: phase_after_def take_rev_upt)
qed

lemma get_or_else_zero_le_sum:
  "list_all (\<lambda>(key, n). 0 \<le> n) (cs :: counts) \<Longrightarrow> get_or_else_zero (map_of cs) a \<le> sum_list (map snd cs)"
proof (induction cs)
  case Nil
  then show ?case by (simp add: get_or_else_zero_def)
next
  case (Cons x cs)
  then have "0 \<le> sum_list (map snd cs)" by (force intro!: sum_list_nonneg simp: list_all_iff)
  with Cons show ?case by (cases x) (auto simp: get_or_else_zero_def)
qed

lemma get_or_else_zero_nonneg:
  "list_all (\<lambda>(key, n). 0 \<le> n) (cs :: counts) \<Longrightarrow> 0 \<le> get_or_else_zero (map_of cs) a"
  by (induction cs) (auto simp: get_or_else_zero_def)

lemma two_counts_le_sum:
  "list_all (\<lambda>(key, n). 0 \<le> n) (cs :: counts) \<Longrightarrow> a \<noteq> b \<Longrightarrow>
     get_or_else_zero (map_of cs) a + get_or_else_zero (map_of cs) b \<le> sum_list (map snd cs)"
proof (induction cs)
  case Nil
  then show ?case by (simp add: get_or_else_zero_def)
next
  case (Cons x cs)
  obtain k n where x: "x = (k, n)" by (cases x)
  from Cons.prems have n: "0 \<le> n" and rest: "list_all (\<lambda>(key, n). 0 \<le> n) cs"
    by (simp_all add: x)
  show ?case
  proof (cases "k = a \<or> k = b")
    case True
    then show ?thesis
      using get_or_else_zero_le_sum[OF rest, of a] get_or_else_zero_le_sum[OF rest, of b] Cons.prems(2)
      by (auto simp: x get_or_else_zero_def)
  next
    case False
    then show ?thesis using Cons.IH[OF rest Cons.prems(2)] n
      by (auto simp: x get_or_else_zero_def)
  qed
qed

lemma quantum_module_measured:
  assumes "measure_type = ''Z'' \<or> measure_type = ''X'' \<or> measure_type = ''Y''"
  shows "\<exists>circuit. vqe_circuit (x # y # rest) measure_type w = (Inr circuit, w @ [New_circuit])
           \<and> quantum_module backend (x # y # rest) measure_type w
               = (Inr (real_of_int
                         (get_or_else_zero (map_of (backend (w @ [New_circuit]) circuit 1000)) ''0''
                          - get_or_else_zero (map_of (backend (w @ [New_circuit]) circuit 1000)) ''1'')
                       / 1000),
                  w @ [New_circuit, Execute circuit 1000])"
proof -
  from assms consider "measure_type = ''Z''" | "measure_type = ''X''" | "measure_type = ''Y''"
    by blast
  then show ?thesis
  proof cases
    case 1
    show ?thesis unfolding 1
      by (rule exI[of _ "[Rx x Qreg, Ry y Qreg, Measure Qreg]"])
         (simp add: quantum_module_def vqe_circuit_def Let_def)
  next
    case 2
    show ?thesis unfolding 2
      by (rule exI[of _ "[Rx x Qreg, Ry y Qreg, U2g 0 pi Qreg, Measure Qreg]"])
         (simp add: quantum_module_def vqe_circuit_def Let_def)
  next
    case 3
    show ?thesis unfolding 3
      by (rule exI[of _ "[Rx x Qreg, Ry y Qreg, U2g 0 (pi / 2) Qreg, Measure Qreg]"])
         (simp add: quantum_module_def vqe_circuit_def Let_def)
  qed
qed

lemma absent_term:
  "label \<notin> dom pauli_dict \<Longrightarrow> get_or_else_zero pauli_dict label * (m::real) = 0"
  by (auto simp: get_or_else_zero_def domIff)

lemma present_term:
  "label \<in> dom pauli_dict \<Longrightarrow> get_or_else_zero pauli_dict label = the (pauli_dict label)"
  by (auto simp: get_or_else_zero_def domIff)

lemma weighted_sum_present:
  fixes pauli_dict :: "string \<rightharpoonup> real"
  shows "(\<Sum>label \<leftarrow> filter (\<lambda>label. label \<in> dom pauli_dict) labels. the (pauli_dict label) * est label)
       = (\<Sum>label \<leftarrow> labels. get_or_else_zero pauli_dict label * est label)"
  by (induction labels) (simp_all add: absent_term present_term)

lemma max_from_maximal:
  "\<exists>n. (max_from best bc rest, n) \<in> insert (best, bc) (set rest)
        \<and> bc \<le> n \<and> list_all (\<lambda>(key', n'). n' \<le> n) rest"
proof (induction best bc rest rule: max_from.induct)
  case (1 best best_count)
  then show ?case by simp
next
  case (2 best best_count key n rest)
  show ?case
  proof (cases "best_count < n")
    case True
    with 2 obtain m where "(max_from key n rest, m) \<in> insert (key, n) (set rest)"
      "n \<le> m" "list_all (\<lambda>(key', n'). n' \<le> m) rest" by auto
    with True show ?thesis by (intro exI[of _ m]) auto
  next
    case False
    with 2 obtain m where "(max_from best best_count rest, m) \<in> insert (best, best_count) (set rest)"
      "best_count \<le> m" "list_all (\<lambda>(key', n'). n' \<le> m) rest" by auto
    with False show ?thesis by (intro exI[of _ m]) auto
  qed
qed

lemma measured_value_key:
  assumes "one_bit_counts cs"
  shows "\<exists>key n b. max_by_count cs = Inr key \<and> (key, n) \<in> set cs
           \<and> list_all (\<lambda>(key', n'). n' \<le> n) cs
           \<and> (key = ''0'' \<and> b = 0 \<or> key = ''1'' \<and> b = 1)
           \<and> int_of_string key = Inr b \<and> measured_value cs = Inr b"
proof -
  from assms obtain key n rest where cs: "cs = (key, n) # rest"
    by (cases cs) (auto simp: one_bit_counts_def)
  from max_from_maximal[of key n rest] obtain m where
    m: "(max_from key n rest, m) \<in> insert (key, n) (set rest)" "n \<le> m"
       "list_all (\<lambda>(key', n'). n' \<le> m) rest"
    by blast
  have "\<forall>(k', n') \<in> set cs. k' = ''0'' \<or> k' = ''1''"
    using assms by (simp add: one_bit_counts_def list_all_iff)
  with m(1) have bit: "max_from key n rest = ''0'' \<or> max_from key n rest = ''1''"
    unfolding cs by auto
  have mx: "max_by_count cs = Inr (max_from key n rest)"
    by (simp add: cs)
  have mem: "(max_from key n rest, m) \<in> set cs"
    using m(1) by (simp add: cs)
  have all: "list_all (\<lambda>(key', n'). n' \<le> m) cs"
    using m(2,3) by (simp add: cs)
  from bit show ?thesis
  proof
    assume z: "max_from key n rest = ''0''"
    then have "int_of_string (max_from key n rest) = Inr 0" "measured_value cs = Inr 0"
      by (simp_all add: measured_value_def mx int_of_string_bits)
    with mx mem all z show ?thesis by blast
  next
    assume o: "max_from key n rest = ''1''"
    then have "int_of_string (max_from key n rest) = Inr 1" "measured_value cs = Inr 1"
      by (simp_all add: measured_value_def mx int_of_string_bits)
    with mx mem all o show ?thesis by blast
  qed
qed

lemma rev_upt_split:
  "k < n \<Longrightarrow> rev [0..<n] = rev [Suc k..<n] @ k # rev [0..<k]"
proof -
  assume "k < n"
  have "[0..<k + (n - k)] = [0..<k] @ [k..<k + (n - k)]"
    by (rule upt_add_eq_append) simp
  then have "[0..<n] = [0..<k] @ [k..<n]"
    using \<open>k < n\<close> by simp
  also have "[k..<n] = k # [Suc k..<n]"
    using \<open>k < n\<close> by (rule upt_conv_Cons)
  finally have "[0..<n] = [0..<k] @ k # [Suc k..<n]" .
  then show ?thesis by simp
qed

lemma rev_upt_Cons: "k < n \<Longrightarrow> rev [k..<n] = rev [Suc k..<n] @ [k]"
  by (simp add: upt_conv_Cons)

lemma rev_upt_from: "k < n \<Longrightarrow> rev [0..<n] = rev [k..<n] @ rev [0..<k]"
  using rev_upt_split[of k n] rev_upt_Cons[of k n] by simp

lemma ipea_loop_step:
  assumes "one_bit_backend backend" and "k < num_bits"
  shows "\<exists>phase w' b.
      ipea_loop backend (rev [Suc k..<num_bits]) 0 w = (Inr phase, w')
    \<and> (b = 0 \<or> b = 1)
    \<and> measured_value (backend (w' @ [New_circuit]) (k_circ k phase) 1000) = Inr b
    \<and> ipea_loop backend (rev [k..<num_bits]) 0 w
        = (Inr (phase + real_of_int b / 2 ^ (k + 1)),
           w' @ [New_circuit, Execute (k_circ k phase) 1000])"
proof -
  from ipea_loop_total[OF assms(1), of "rev [Suc k..<num_bits]" 0 w]
  obtain phase tr where
    before: "ipea_loop backend (rev [Suc k..<num_bits]) 0 w = (Inr phase, w @ tr)"
    by blast
  from ipea_iteration_bit[OF assms(1), of "w @ tr" k phase] obtain b where
    b: "b = 0 \<or> b = 1" and
    mv: "measured_value (backend ((w @ tr) @ [New_circuit]) (k_circ k phase) 1000) = Inr b" and
    it: "ipea_iteration backend k phase (w @ tr)
           = (Inr (phase + real_of_int b / 2 ^ (k + 1)),
              (w @ tr) @ [New_circuit, Execute (k_circ k phase) 1000])"
    by blast
  have after: "ipea_loop backend (rev [k..<num_bits]) 0 w
        = (Inr (phase + real_of_int b / 2 ^ (k + 1)),
           (w @ tr) @ [New_circuit, Execute (k_circ k phase) 1000])"
    using assms(2) before it by (simp add: rev_upt_Cons ipea_loop_append del: upt_Suc rev_append)
  from before b mv after show ?thesis by blast
qed

lemma one_bit_constant_backend:
  "one_bit_backend (constant_backend [(''0'', 400), (''1'', 600)])"
  by (simp add: one_bit_backend_def constant_backend_def one_bit_counts_def)

lemma one_bit_scripted_backend:
  assumes "list_all one_bit_counts answers"
  shows "one_bit_backend (scripted_backend answers)"
  using assms
  by (auto simp: one_bit_backend_def scripted_backend_def one_bit_counts_def list_all_length)

lemma script_one_bit:
  "one_bit_backend (scripted_backend
     [[(''0'', 400), (''1'', 600)], [(''0'', 700), (''1'', 300)], [(''1'', 510), (''0'', 490)]])"
  by (rule one_bit_scripted_backend) (simp add: one_bit_counts_def)

lemma phase_after_step:
  assumes "one_bit_backend backend" and "i < num_bits"
  shows "\<exists>phase b. phase_after backend num_bits i w = Inr phase \<and> (b = 0 \<or> b = 1)
           \<and> phase_after backend num_bits (Suc i) w
               = Inr (phase + real_of_int b / 2 ^ (num_bits - i))"
proof -
  define k where "k = num_bits - 1 - i"
  have k: "k < num_bits" "Suc k = num_bits - i" "num_bits - Suc i = k"
    using assms(2) by (simp_all add: k_def)
  from ipea_loop_step[OF assms(1) k(1), of w] obtain phase w' b where
    before: "ipea_loop backend (rev [Suc k..<num_bits]) 0 w = (Inr phase, w')" and
    b: "b = 0 \<or> b = 1" and
    after: "ipea_loop backend (rev [k..<num_bits]) 0 w
        = (Inr (phase + real_of_int b / 2 ^ (k + 1)),
           w' @ [New_circuit, Execute (k_circ k phase) 1000])"
    by blast
  have "take i (rev [0..<num_bits]) = rev [Suc k..<num_bits]"
    using assms(2) k by (simp add: take_rev drop_upt)
  moreover have "take (Suc i) (rev [0..<num_bits]) = rev [k..<num_bits]"
    using assms(2) k by (simp add: take_rev drop_upt del: take_Suc)
  ultimately have "phase_after backend num_bits i w = Inr phase"
    "phase_after backend num_bits (Suc i) w = Inr (phase + real_of_int b / 2 ^ (num_bits - i))"
    using before after k by (simp_all add: phase_after_def del: take_Suc)
  with b show ?thesis by blast
qed

lemma phase_after_unit:
  assumes "one_bit_backend backend" and "i \<le> num_bits"
  shows "\<exists>phase. phase_after backend num_bits i w = Inr phase \<and> 0 \<le> phase \<and> phase < 1"
proof -
  from phase_after_dyadic[OF assms, of w] obtain m :: nat where
    m: "m < 2 ^ i" and ph: "phase_after backend num_bits i w = Inr (real m / 2 ^ num_bits)"
    by blast
  have "(2::nat) ^ i \<le> 2 ^ num_bits" using assms(2) by simp
  with m have "m < 2 ^ num_bits" by linarith
  then have "real m < 2 ^ num_bits"
    by (metis of_nat_less_iff of_nat_numeral of_nat_power)
  then have "real m / 2 ^ num_bits < 1" by simp
  with ph show ?thesis by simp
qed

lemma phase_after_all: "phase_after backend num_bits num_bits w = fst (estimate_phase backend num_bits w)"
  by (simp add: phase_after_def estimate_phase_def)

lemma sum_list_powers: "sum_list (map (\<lambda>k. 2 ^ k) (rev [0..<n])) = (2::nat) ^ n - 1"
  by (induction n) simp_all

lemma phase_after_mono:
  assumes "one_bit_backend backend" and "i \<le> j"
  shows "\<exists>p q. phase_after backend num_bits i w = Inr p \<and> phase_after backend num_bits j w = Inr q
           \<and> p \<le> q"
proof -
  define ks where "ks = rev [0..<num_bits]"
  have split: "take j ks = take i ks @ drop i (take j ks)"
    using assms(2) by (metis append_take_drop_id min.absorb2 take_take min.commute)
  from ipea_loop_total[OF assms(1), of "take i ks" 0 w] obtain p tr where
    first: "ipea_loop backend (take i ks) 0 w = (Inr p, w @ tr)"
    by blast
  from ipea_loop_total[OF assms(1), of "drop i (take j ks)" p "w @ tr"] obtain q tr' where
    second: "ipea_loop backend (drop i (take j ks)) p (w @ tr) = (Inr q, (w @ tr) @ tr')"
    and le: "p \<le> q"
    by blast
  have "ipea_loop backend (take j ks) 0 w = (Inr q, (w @ tr) @ tr')"
    by (subst split) (simp add: ipea_loop_append first second)
  with first le show ?thesis
    by (auto simp: phase_after_def ks_def)
qed

section \<open>Properties of the Pauli estimator\<close>

text \<open>C5: with basis \<open>I\<close> the estimator returns 1 for every parameter sequence and every
  simulator, and the trace is unchanged: no circuit is built, no job is executed.\<close>

theorem quantum_module_identity:
  "quantum_module backend parameters ''I'' w = (Inr 1, w)"
  by (simp add: quantum_module_def)

text \<open>C6: for every basis label outside \<open>{I, X, Y, Z}\<close>, every parameter sequence and every
  simulator, the estimator raises \<open>ValueError\<close>, and the trace is the one it was called
  with: no circuit was built and no job was executed.\<close>

theorem quantum_module_invalid_basis:
  assumes "measure_type \<notin> {''I'', ''X'', ''Y'', ''Z''}"
  shows "quantum_module backend parameters measure_type w
           = (Inl (ValueError quantum_module_message), w)"
  using assms by (simp add: quantum_module_def)

theorem quantum_module_invalid_basis_witness:
  "''Q'' \<notin> {''I'', ''X'', ''Y'', ''Z''}
   \<and> quantum_module (constant_backend [(''0'', 1000)]) [0, 0] ''Q'' []
       = (Inl (ValueError quantum_module_message), [])"
  using quantum_module_invalid_basis[of "''Q''" "constant_backend [(''0'', 1000)]" "[0, 0]" "[]"]
  by simp

text \<open>C2: for every basis label outside \<open>{I, X, Y, Z}\<close>, \<open>quantum_module\<close> raises
  \<open>ValueError\<close>, and for every basis label outside \<open>{X, Y, Z}\<close>, \<open>vqe_circuit\<close> (called with the
  ansatz parameters, which the state preparation reads first) raises \<open>ValueError\<close>. The
  message names the input at fault, the input for measurement, and lists the accepted
  labels of its call site, in quotes.\<close>

theorem invalid_basis_fixed_message:
  \<open>(measure_type \<notin> {''I'', ''X'', ''Y'', ''Z''} \<longrightarrow>
       quantum_module backend parameters measure_type w
         = (Inl (ValueError quantum_module_message), w))
   \<and> (measure_type \<notin> {''X'', ''Y'', ''Z''} \<longrightarrow>
       vqe_circuit (p0 # p1 # ps) measure_type w
         = (Inl (ValueError vqe_circuit_message), w @ [New_circuit]))
   \<and> occurs_in ''input for measurement'' quantum_module_message
   \<and> list_all (\<lambda>label. occurs_in label quantum_module_message) [''"I"'', ''"X"'', ''"Z"'', ''"Y"'']
   \<and> occurs_in ''input for measurement'' vqe_circuit_message
   \<and> list_all (\<lambda>label. occurs_in label vqe_circuit_message) [''"X"'', ''"Y"'', ''"Z"'']\<close>
  by (simp add: quantum_module_def vqe_circuit_def quantum_module_message_def vqe_circuit_message_def)

theorem invalid_basis_fixed_message_witness:
  "''Q'' \<notin> {''I'', ''X'', ''Y'', ''Z''} \<and> ''Q'' \<notin> {''X'', ''Y'', ''Z''}
   \<and> quantum_module (constant_backend [(''0'', 1000)]) [0, 0] ''Q'' []
       = (Inl (ValueError quantum_module_message), [])
   \<and> vqe_circuit [0, 0] ''Q'' [] = (Inl (ValueError vqe_circuit_message), [New_circuit])"
  using invalid_basis_fixed_message[of "''Q''" "constant_backend [(''0'', 1000)]" "[0, 0]" "[]" 0 0 "[]"]
  by simp

text \<open>C4: for a basis that reaches the simulator (\<open>Z\<close>, \<open>X\<close> or \<open>Y\<close>), a parameter pair, and
  counts with non-negative values that sum to the 1000 shots, the estimator returns
  \<open>(n0 - n1) / 1000\<close>, where \<open>n0\<close> and \<open>n1\<close> are the counts of the outcomes \<open>0\<close> and \<open>1\<close> and a
  missing outcome counts as zero; the value lies between -1 and 1.\<close>

theorem quantum_module_expectation:
  assumes "measure_type = ''Z'' \<or> measure_type = ''X'' \<or> measure_type = ''Y''"
      and "\<forall>circuit. shot_counts 1000 (backend (w @ [New_circuit]) circuit 1000)"
  shows "\<exists>circuit counts n0 n1.
           vqe_circuit [theta1, theta2] measure_type w = (Inr circuit, w @ [New_circuit])
         \<and> counts = backend (w @ [New_circuit]) circuit 1000
         \<and> n0 = (case map_of counts ''0'' of None \<Rightarrow> 0 | Some n \<Rightarrow> n)
         \<and> n1 = (case map_of counts ''1'' of None \<Rightarrow> 0 | Some n \<Rightarrow> n)
         \<and> quantum_module backend [theta1, theta2] measure_type w
             = (Inr (real_of_int (n0 - n1) / 1000), w @ [New_circuit, Execute circuit 1000])
         \<and> - 1 \<le> real_of_int (n0 - n1) / 1000 \<and> real_of_int (n0 - n1) / 1000 \<le> 1"
proof -
  from quantum_module_measured[OF assms(1), where x = theta1 and y = theta2 and rest = "[]"
         and w = w and backend = backend]
  obtain circuit where
    circ: "vqe_circuit [theta1, theta2] measure_type w = (Inr circuit, w @ [New_circuit])" and
    qm: "quantum_module backend [theta1, theta2] measure_type w
           = (Inr (real_of_int
                     (get_or_else_zero (map_of (backend (w @ [New_circuit]) circuit 1000)) ''0''
                      - get_or_else_zero (map_of (backend (w @ [New_circuit]) circuit 1000)) ''1'')
                   / 1000),
              w @ [New_circuit, Execute circuit 1000])"
    by blast
  define counts where "counts = backend (w @ [New_circuit]) circuit 1000"
  define n0 where "n0 = get_or_else_zero (map_of counts) ''0''"
  define n1 where "n1 = get_or_else_zero (map_of counts) ''1''"
  have "shot_counts 1000 counts"
    using assms(2) by (simp add: counts_def)
  then have nonneg: "list_all (\<lambda>(key, n). 0 \<le> n) counts"
    and total: "sum_list (map snd counts) = 1000"
    by (simp_all add: shot_counts_def)
  have "0 \<le> n0" "0 \<le> n1"
    unfolding n0_def n1_def by (rule get_or_else_zero_nonneg[OF nonneg])+
  moreover have "n0 + n1 \<le> 1000"
    unfolding n0_def n1_def using two_counts_le_sum[OF nonneg, of "''0''" "''1''"] total by simp
  ultimately have "- 1000 \<le> n0 - n1" "n0 - n1 \<le> 1000"
    by linarith+
  then have bounds: "- 1 \<le> real_of_int (n0 - n1) / 1000" "real_of_int (n0 - n1) / 1000 \<le> 1"
    by simp_all
  have result: "quantum_module backend [theta1, theta2] measure_type w
                  = (Inr (real_of_int (n0 - n1) / 1000), w @ [New_circuit, Execute circuit 1000])"
    using qm by (simp add: n0_def n1_def counts_def)
  have "n0 = (case map_of counts ''0'' of None \<Rightarrow> 0 | Some n \<Rightarrow> n)"
       "n1 = (case map_of counts ''1'' of None \<Rightarrow> 0 | Some n \<Rightarrow> n)"
    by (simp_all add: n0_def n1_def get_or_else_zero_def)
  with circ result bounds counts_def show ?thesis
    by blast
qed

theorem quantum_module_expectation_witness:
  "(''X'' = ''Z'' \<or> ''X'' = ''X'' \<or> ''X'' = ''Y'')
   \<and> shot_counts 1000 [(''1'', 750), (''0'', 250)]
   \<and> quantum_module (constant_backend [(''1'', 750), (''0'', 250)]) [0, 0] ''X'' []
       = (Inr (- 1 / 2), [New_circuit, Execute [Rx 0 Qreg, Ry 0 Qreg, U2g 0 pi Qreg, Measure Qreg] 1000])"
  using quantum_module_expectation[of "''X''" "constant_backend [(''1'', 750), (''0'', 250)]" "[]" 0 0]
  by (simp add: shot_counts_def constant_backend_def vqe_circuit_def)

section \<open>Properties of the Hamiltonian expectation\<close>

text \<open>C1, as stated, asks that a label absent from the mapping triggers no estimator call,
  and sums over every label of the mapping. With the mapping \<open>{I: 0.4, XY: 0.8}\<close> the
  labels \<open>Z\<close>, \<open>X\<close> and \<open>Y\<close> are absent, yet \<open>vqe\<close> builds and executes the circuit of each of
  them; and the label \<open>XY\<close>, which is present, adds nothing to the value.\<close>

theorem vqe_absent_labels_counterexample:
  "vqe (constant_backend [(''0'', 1000)]) [''I'' \<mapsto> 2 / 5, ''XY'' \<mapsto> 4 / 5] [0, 0] []
     = (Inr (2 / 5),
        [New_circuit, Execute [Rx 0 Qreg, Ry 0 Qreg, Measure Qreg] 1000,
         New_circuit, Execute [Rx 0 Qreg, Ry 0 Qreg, U2g 0 pi Qreg, Measure Qreg] 1000,
         New_circuit, Execute [Rx 0 Qreg, Ry 0 Qreg, U2g 0 (pi / 2) Qreg, Measure Qreg] 1000])"
  by (simp add: vqe_def quantum_module_def vqe_circuit_def constant_backend_def get_or_else_zero_def)

text \<open>C1, amended: for every mapping and every parameter pair, \<open>vqe\<close> calls the estimator for
  each of the four labels \<open>I\<close>, \<open>Z\<close>, \<open>X\<close>, \<open>Y\<close>, in this order and whether or not the label
  is in the mapping (so it executes three circuits), and returns the coefficient-weighted
  sum of the estimator's outputs over those of the four labels that are in the mapping: an
  absent label contributes zero to the value. Other labels of the mapping are not read.\<close>

theorem vqe_weighted_sum:
  "\<exists>mZ mX mY cZ cX cY.
       quantum_module backend [theta1, theta2] ''I'' w = (Inr 1, w)
     \<and> quantum_module backend [theta1, theta2] ''Z'' w
         = (Inr mZ, w @ [New_circuit, Execute cZ 1000])
     \<and> quantum_module backend [theta1, theta2] ''X'' (w @ [New_circuit, Execute cZ 1000])
         = (Inr mX, w @ [New_circuit, Execute cZ 1000, New_circuit, Execute cX 1000])
     \<and> quantum_module backend [theta1, theta2] ''Y''
           (w @ [New_circuit, Execute cZ 1000, New_circuit, Execute cX 1000])
         = (Inr mY, w @ [New_circuit, Execute cZ 1000, New_circuit, Execute cX 1000,
                         New_circuit, Execute cY 1000])
     \<and> vqe backend pauli_dict [theta1, theta2] w
         = (Inr (\<Sum>label \<leftarrow> filter (\<lambda>label. label \<in> dom pauli_dict) [''I'', ''Z'', ''X'', ''Y''].
                   the (pauli_dict label)
                   * (if label = ''I'' then 1 else if label = ''Z'' then mZ
                      else if label = ''X'' then mX else mY)),
            w @ [New_circuit, Execute cZ 1000, New_circuit, Execute cX 1000,
                 New_circuit, Execute cY 1000])"
proof -
  have qI: "quantum_module backend [theta1, theta2] ''I'' w = (Inr 1, w)"
    by (simp add: quantum_module_def)
  obtain mZ cZ where qZ: "quantum_module backend [theta1, theta2] ''Z'' w
         = (Inr mZ, w @ [New_circuit, Execute cZ 1000])"
    using quantum_module_measured[where measure_type = "''Z''" and backend = backend and x = theta1
            and y = theta2 and rest = "[]" and w = w] by blast
  obtain mX cX where qX: "quantum_module backend [theta1, theta2] ''X'' (w @ [New_circuit, Execute cZ 1000])
         = (Inr mX, w @ [New_circuit, Execute cZ 1000, New_circuit, Execute cX 1000])"
    using quantum_module_measured[where measure_type = "''X''" and backend = backend and x = theta1
            and y = theta2 and rest = "[]" and w = "w @ [New_circuit, Execute cZ 1000]"]
    by auto
  obtain mY cY where qY: "quantum_module backend [theta1, theta2] ''Y''
           (w @ [New_circuit, Execute cZ 1000, New_circuit, Execute cX 1000])
         = (Inr mY, w @ [New_circuit, Execute cZ 1000, New_circuit, Execute cX 1000,
                         New_circuit, Execute cY 1000])"
    using quantum_module_measured[where measure_type = "''Y''" and backend = backend and x = theta1
            and y = theta2 and rest = "[]"
            and w = "w @ [New_circuit, Execute cZ 1000, New_circuit, Execute cX 1000]"]
    by auto
  have "vqe backend pauli_dict [theta1, theta2] w
         = (Inr (get_or_else_zero pauli_dict ''I'' * 1 + get_or_else_zero pauli_dict ''Z'' * mZ
                 + get_or_else_zero pauli_dict ''X'' * mX + get_or_else_zero pauli_dict ''Y'' * mY),
            w @ [New_circuit, Execute cZ 1000, New_circuit, Execute cX 1000,
                 New_circuit, Execute cY 1000])"
    by (simp add: vqe_def qI qZ qX qY Let_def)
  also have "get_or_else_zero pauli_dict ''I'' * 1 + get_or_else_zero pauli_dict ''Z'' * mZ
                 + get_or_else_zero pauli_dict ''X'' * mX + get_or_else_zero pauli_dict ''Y'' * mY
      = (\<Sum>label \<leftarrow> filter (\<lambda>label. label \<in> dom pauli_dict) [''I'', ''Z'', ''X'', ''Y''].
                   the (pauli_dict label)
                   * (if label = ''I'' then 1 else if label = ''Z'' then mZ
                      else if label = ''X'' then mX else mY))"
    unfolding weighted_sum_present by simp
  finally show ?thesis using qI qZ qX qY by blast
qed

section \<open>Properties of the iterative phase estimator\<close>

text \<open>The properties below are about runs in which the simulator answers as a one-bit
  classical register does (\<open>one_bit_backend\<close>). The loop over \<open>reversed(range(num_bits))\<close>
  visits the bit indices \<open>num_bits - 1\<close> down to 0, so when iteration \<open>k\<close> starts, the
  iterations of \<open>rev [Suc k..<num_bits]\<close> have run.\<close>

text \<open>C3: in the iteration with bit index \<open>k\<close> of a run with \<open>num_bits\<close> bits, the circuit
  holds the controlled unitary exactly \<open>2 ^ k\<close> times in a row, followed by the rotation of
  the ancillary qubit by \<open>- 2 * pi * phase * 2 ^ k\<close>, with \<open>phase\<close> the accumulator before the
  iteration. The circuit is executed; the key \<open>max\<close> picks has a count that no other key
  exceeds, and it is read as its bit: \<open>0\<close> as 0 and \<open>1\<close> as 1. The accumulator becomes
  \<open>phase + b / 2 ^ (k + 1)\<close>, and the run goes on from there with the lower bit indices.\<close>

theorem ipea_iteration_trace:
  assumes "one_bit_backend backend" and "k < num_bits"
  shows "\<exists>phase w' counts key n b.
      rev [0..<num_bits] = rev [Suc k..<num_bits] @ k # rev [0..<k]
    \<and> ipea_loop backend (rev [Suc k..<num_bits]) 0 w = (Inr phase, w')
    \<and> k_circ k phase
        = [Xg Qreg, Hg Areg] @ replicate (2 ^ k) Control_H
          @ [U1g (- (2 * pi * phase * 2 ^ k)) Areg, Hg Areg, Measure Areg]
    \<and> counts = backend (w' @ [New_circuit]) (k_circ k phase) 1000
    \<and> max_by_count counts = Inr key
    \<and> (key, n) \<in> set counts \<and> list_all (\<lambda>(key', n'). n' \<le> n) counts
    \<and> (key = ''0'' \<and> b = 0 \<or> key = ''1'' \<and> b = 1)
    \<and> int_of_string key = Inr b
    \<and> ipea_loop backend (rev [k..<num_bits]) 0 w
        = (Inr (phase + real_of_int b / 2 ^ (k + 1)),
           w' @ [New_circuit, Execute (k_circ k phase) 1000])
    \<and> estimate_phase backend num_bits w
        = ipea_loop backend (rev [0..<k]) (phase + real_of_int b / 2 ^ (k + 1))
            (w' @ [New_circuit, Execute (k_circ k phase) 1000])"
proof -
  from ipea_loop_total[OF assms(1), of "rev [Suc k..<num_bits]" 0 w]
  obtain phase tr where
    before: "ipea_loop backend (rev [Suc k..<num_bits]) 0 w = (Inr phase, w @ tr)"
    by blast
  define counts where "counts = backend ((w @ tr) @ [New_circuit]) (k_circ k phase) 1000"
  have "one_bit_counts counts"
    using assms(1) by (simp add: counts_def one_bit_backend_def)
  from measured_value_key[OF this] obtain key n b where
    key: "max_by_count counts = Inr key" "(key, n) \<in> set counts"
         "list_all (\<lambda>(key', n'). n' \<le> n) counts"
         "key = ''0'' \<and> b = 0 \<or> key = ''1'' \<and> b = 1"
         "int_of_string key = Inr b" and
    mv: "measured_value counts = Inr b"
    by blast
  have it: "ipea_iteration backend k phase (w @ tr)
           = (Inr (phase + real_of_int b / 2 ^ (k + 1)),
              (w @ tr) @ [New_circuit, Execute (k_circ k phase) 1000])"
    using mv by (simp add: ipea_iteration_def Let_def counts_def)
  have after: "ipea_loop backend (rev [k..<num_bits]) 0 w
        = (Inr (phase + real_of_int b / 2 ^ (k + 1)),
           (w @ tr) @ [New_circuit, Execute (k_circ k phase) 1000])"
    using assms(2) before it by (simp add: rev_upt_Cons ipea_loop_append del: upt_Suc rev_append)
  have run: "estimate_phase backend num_bits w
        = ipea_loop backend (rev [0..<k]) (phase + real_of_int b / 2 ^ (k + 1))
            ((w @ tr) @ [New_circuit, Execute (k_circ k phase) 1000])"
    unfolding estimate_phase_def rev_upt_from[OF assms(2)] ipea_loop_append after by simp
  from rev_upt_split[OF assms(2)] before k_circ_shape[of k phase] counts_def key after run
  show ?thesis by blast
qed

theorem ipea_iteration_trace_witness:
  "one_bit_backend (scripted_backend
     [[(''0'', 400), (''1'', 600)], [(''0'', 700), (''1'', 300)], [(''1'', 510), (''0'', 490)]])
   \<and> (0::nat) < 3
   \<and> ipea_loop (scripted_backend
        [[(''0'', 400), (''1'', 600)], [(''0'', 700), (''1'', 300)], [(''1'', 510), (''0'', 490)]])
        (rev [Suc 0..<3]) 0 []
       = (Inr (1 / 8),
          [New_circuit,
           Execute [Xg Qreg, Hg Areg, Control_H, Control_H, Control_H, Control_H,
                    U1g 0 Areg, Hg Areg, Measure Areg] 1000,
           New_circuit,
           Execute [Xg Qreg, Hg Areg, Control_H, Control_H,
                    U1g (- (pi / 2)) Areg, Hg Areg, Measure Areg] 1000])
   \<and> estimate_phase (scripted_backend
        [[(''0'', 400), (''1'', 600)], [(''0'', 700), (''1'', 300)], [(''1'', 510), (''0'', 490)]])
        3 []
       = (Inr (5 / 8),
          [New_circuit,
           Execute [Xg Qreg, Hg Areg, Control_H, Control_H, Control_H, Control_H,
                    U1g 0 Areg, Hg Areg, Measure Areg] 1000,
           New_circuit,
           Execute [Xg Qreg, Hg Areg, Control_H, Control_H,
                    U1g (- (pi / 2)) Areg, Hg Areg, Measure Areg] 1000,
           New_circuit,
           Execute [Xg Qreg, Hg Areg, Control_H,
                    U1g (- (pi / 4)) Areg, Hg Areg, Measure Areg] 1000])"
proof -
  have up: "rev [Suc 0..<3] = [2, 1]" "rev [0..<3] = [2, 1, 0]"
    by (simp_all add: upt_rec)
  have run: "ipea_loop (scripted_backend
        [[(''0'', 400), (''1'', 600)], [(''0'', 700), (''1'', 300)], [(''1'', 510), (''0'', 490)]])
        (rev [Suc 0..<3]) 0 []
       = (Inr (1 / 8),
          [New_circuit,
           Execute [Xg Qreg, Hg Areg, Control_H, Control_H, Control_H, Control_H,
                    U1g 0 Areg, Hg Areg, Measure Areg] 1000,
           New_circuit,
           Execute [Xg Qreg, Hg Areg, Control_H, Control_H,
                    U1g (- (pi / 2)) Areg, Hg Areg, Measure Areg] 1000])"
    unfolding up
    by (simp add: ipea_iteration_def k_circ_shape measured_value_def int_of_string_bits
          scripted_backend_def eval_nat_numeral)
  have full: "estimate_phase (scripted_backend
        [[(''0'', 400), (''1'', 600)], [(''0'', 700), (''1'', 300)], [(''1'', 510), (''0'', 490)]])
        3 []
       = (Inr (5 / 8),
          [New_circuit,
           Execute [Xg Qreg, Hg Areg, Control_H, Control_H, Control_H, Control_H,
                    U1g 0 Areg, Hg Areg, Measure Areg] 1000,
           New_circuit,
           Execute [Xg Qreg, Hg Areg, Control_H, Control_H,
                    U1g (- (pi / 2)) Areg, Hg Areg, Measure Areg] 1000,
           New_circuit,
           Execute [Xg Qreg, Hg Areg, Control_H,
                    U1g (- (pi / 4)) Areg, Hg Areg, Measure Areg] 1000])"
    unfolding estimate_phase_def up
    by (simp add: ipea_iteration_def k_circ_shape measured_value_def int_of_string_bits
          scripted_backend_def eval_nat_numeral)
  from ipea_iteration_trace[OF script_one_bit, of 0 3 "[]"] script_one_bit run full
  show ?thesis by simp
qed

text \<open>C7: the accumulator starts at 0, each iteration adds one term to it (the bit over a
  power of two), it lies in the interval from 0 inclusive to 1 exclusive after every
  iteration, and so does the phase the run returns.\<close>

theorem phase_in_unit_interval:
  assumes "one_bit_backend backend"
  shows "phase_after backend num_bits 0 w = Inr 0
       \<and> (\<forall>i<num_bits. \<exists>phase b. phase_after backend num_bits i w = Inr phase \<and> (b = 0 \<or> b = 1)
             \<and> phase_after backend num_bits (Suc i) w
                 = Inr (phase + real_of_int b / 2 ^ (num_bits - i)))
       \<and> (\<forall>i\<le>num_bits. \<exists>phase. phase_after backend num_bits i w = Inr phase
             \<and> 0 \<le> phase \<and> phase < 1)
       \<and> (\<exists>phase. fst (estimate_phase backend num_bits w) = Inr phase \<and> 0 \<le> phase \<and> phase < 1)"
proof (intro conjI allI impI)
  show "phase_after backend num_bits 0 w = Inr 0"
    by (simp add: phase_after_def)
next
  fix i assume "i < num_bits"
  then show "\<exists>phase b. phase_after backend num_bits i w = Inr phase \<and> (b = 0 \<or> b = 1)
             \<and> phase_after backend num_bits (Suc i) w
                 = Inr (phase + real_of_int b / 2 ^ (num_bits - i))"
    by (rule phase_after_step[OF assms])
next
  fix i assume "i \<le> num_bits"
  then show "\<exists>phase. phase_after backend num_bits i w = Inr phase \<and> 0 \<le> phase \<and> phase < 1"
    by (rule phase_after_unit[OF assms])
next
  show "\<exists>phase. fst (estimate_phase backend num_bits w) = Inr phase \<and> 0 \<le> phase \<and> phase < 1"
    using phase_after_unit[OF assms order_refl, of num_bits w] by (simp add: phase_after_all)
qed

theorem phase_in_unit_interval_witness:
  "one_bit_backend (constant_backend [(''0'', 400), (''1'', 600)])
   \<and> phase_after (constant_backend [(''0'', 400), (''1'', 600)]) num_bits_estimate 0 [] = Inr 0
   \<and> (\<exists>phase. fst (estimate_phase (constant_backend [(''0'', 400), (''1'', 600)])
                       num_bits_estimate []) = Inr phase
         \<and> 0 \<le> phase \<and> phase < 1)"
  using phase_in_unit_interval[OF one_bit_constant_backend, of num_bits_estimate "[]"]
  by (simp add: one_bit_constant_backend)

text \<open>C8: for \<open>num_bits\<close> at least 1 the run returns, after exactly \<open>num_bits\<close> circuits were
  built and executed, one per iteration; the iterations apply the controlled unitary
  \<open>2 ^ (num_bits - 1)\<close>, ..., 2, 1 times, which is \<open>2 ^ num_bits - 1\<close> in total, and no
  iteration applies it more often than the first.\<close>

theorem estimate_phase_cost:
  assumes "one_bit_backend backend" and "1 \<le> num_bits"
  shows "\<exists>phase tr. estimate_phase backend num_bits w = (Inr phase, w @ tr)
     \<and> length tr = 2 * num_bits
     \<and> length (executed tr) = num_bits
     \<and> map applications (executed tr) = map (\<lambda>k. 2 ^ k) (rev [0..<num_bits])
     \<and> sum_list (map applications (executed tr)) = 2 ^ num_bits - 1
     \<and> applications (hd (executed tr)) = 2 ^ (num_bits - 1)
     \<and> (\<forall>circuit \<in> set (executed tr). applications circuit \<le> 2 ^ (num_bits - 1))"
proof -
  from ipea_loop_total[OF assms(1), of "rev [0..<num_bits]" 0 w] obtain phase tr where
    run: "estimate_phase backend num_bits w = (Inr phase, w @ tr)" and
    len: "length tr = 2 * num_bits" and
    apps: "map applications (executed tr) = map (\<lambda>k. 2 ^ k) (rev [0..<num_bits])"
    by (auto simp: estimate_phase_def)
  from apps have n: "length (executed tr) = num_bits"
    by (metis length_map length_rev length_upt diff_zero)
  have total: "sum_list (map applications (executed tr)) = 2 ^ num_bits - 1"
    unfolding apps by (rule sum_list_powers)
  obtain n' where n': "num_bits = Suc n'"
    using assms(2) by (cases num_bits) simp_all
  have ne: "executed tr \<noteq> []" using n n' by auto
  have "hd (map applications (executed tr)) = 2 ^ (num_bits - 1)"
    unfolding apps by (simp add: n')
  with ne have first: "applications (hd (executed tr)) = 2 ^ (num_bits - 1)"
    by (simp add: hd_map)
  have "\<forall>x \<in> set (map applications (executed tr)). x \<le> 2 ^ (num_bits - 1)"
    unfolding apps by (auto simp: n' intro: power_increasing simp del: upt_Suc)
  then have worst: "\<forall>circuit \<in> set (executed tr). applications circuit \<le> 2 ^ (num_bits - 1)"
    by simp
  from run len n apps total first worst show ?thesis by blast
qed

theorem estimate_phase_cost_witness:
  "one_bit_backend (constant_backend [(''0'', 400), (''1'', 600)]) \<and> (1::nat) \<le> 3
   \<and> (\<exists>phase tr. estimate_phase (constant_backend [(''0'', 400), (''1'', 600)]) 3 [] = (Inr phase, tr)
         \<and> length tr = 6 \<and> length (executed tr) = 3
         \<and> sum_list (map applications (executed tr)) = 7
         \<and> applications (hd (executed tr)) = 4)"
  using estimate_phase_cost[OF one_bit_constant_backend, of 3 "[]"]
  by (auto simp: one_bit_constant_backend)

text \<open>C9: after the loop, the eigenvalue is computed from the final phase as
  \<open>2 * pi * (1 - phase) / t\<close>.\<close>

theorem eigenvalue_from_phase:
  assumes "one_bit_backend backend"
  shows "\<exists>phase w'. estimate_phase backend num_bits w = (Inr phase, w')
           \<and> estimate_eigenvalue backend num_bits w = (Inr (2 * pi * (1 - phase) / t), w')"
proof -
  from ipea_loop_total[OF assms, of "rev [0..<num_bits]" 0 w] obtain phase tr where
    "estimate_phase backend num_bits w = (Inr phase, w @ tr)"
    by (auto simp: estimate_phase_def)
  then show ?thesis
    by (simp add: estimate_eigenvalue_def eigenvalue_def)
qed

theorem eigenvalue_from_phase_witness:
  "one_bit_backend (constant_backend [(''0'', 400), (''1'', 600)])
   \<and> fst (estimate_phase (constant_backend [(''0'', 400), (''1'', 600)]) 1 []) = Inr (1 / 2)
   \<and> fst (estimate_eigenvalue (constant_backend [(''0'', 400), (''1'', 600)]) 1 []) = Inr pi"
proof -
  have "fst (estimate_phase (constant_backend [(''0'', 400), (''1'', 600)]) 1 []) = Inr (1 / 2)"
       "fst (estimate_eigenvalue (constant_backend [(''0'', 400), (''1'', 600)]) 1 []) = Inr pi"
    by (simp_all add: estimate_phase_def estimate_eigenvalue_def eigenvalue_def
          t_def ipea_iteration_def k_circ_def measured_value_def int_of_string_bits
          constant_backend_def)
  with eigenvalue_from_phase[OF one_bit_constant_backend, of 1 "[]"] one_bit_constant_backend
  show ?thesis by simp
qed

text \<open>C10: every measured value is the bit 0 or 1, the accumulator never decreases from one
  iteration to a later one, and the final phase is \<open>m / 2 ^ num_bits\<close> for a natural number
  \<open>m\<close> below \<open>2 ^ num_bits\<close>.\<close>

theorem phase_dyadic_monotone:
  assumes "one_bit_backend backend"
  shows "(\<forall>w' circuit. measured_value (backend w' circuit 1000) = Inr 0
                       \<or> measured_value (backend w' circuit 1000) = Inr 1)
       \<and> (\<forall>i j. i \<le> j \<longrightarrow> (\<exists>p q. phase_after backend num_bits i w = Inr p
                                  \<and> phase_after backend num_bits j w = Inr q \<and> p \<le> q))
       \<and> (\<exists>m::nat. m < 2 ^ num_bits
             \<and> fst (estimate_phase backend num_bits w) = Inr (real m / 2 ^ num_bits))"
proof (intro conjI allI impI)
  fix w' circuit
  have "one_bit_counts (backend w' circuit 1000)"
    using assms by (simp add: one_bit_backend_def)
  then show "measured_value (backend w' circuit 1000) = Inr 0
           \<or> measured_value (backend w' circuit 1000) = Inr 1"
    by (rule measured_value_bit)
next
  fix i j :: nat assume "i \<le> j"
  then show "\<exists>p q. phase_after backend num_bits i w = Inr p
               \<and> phase_after backend num_bits j w = Inr q \<and> p \<le> q"
    by (rule phase_after_mono[OF assms])
next
  show "\<exists>m::nat. m < 2 ^ num_bits
          \<and> fst (estimate_phase backend num_bits w) = Inr (real m / 2 ^ num_bits)"
    using phase_after_dyadic[OF assms order_refl, of num_bits w] by (simp add: phase_after_all)
qed

theorem phase_dyadic_monotone_witness:
  "one_bit_backend (constant_backend [(''0'', 400), (''1'', 600)]) \<and> (1::nat) \<le> 2
   \<and> (\<exists>p q. phase_after (constant_backend [(''0'', 400), (''1'', 600)]) 2 1 [] = Inr p
           \<and> phase_after (constant_backend [(''0'', 400), (''1'', 600)]) 2 2 [] = Inr q \<and> p \<le> q)
   \<and> (\<exists>m::nat. m < 4
         \<and> fst (estimate_phase (constant_backend [(''0'', 400), (''1'', 600)]) 2 []) = Inr (real m / 4))"
  using phase_dyadic_monotone[OF one_bit_constant_backend, of 2 "[]"]
  by (simp add: one_bit_constant_backend)

end
